theory Spec2Isabelle
  imports Main
begin

section \<open>Strings and lines\<close>

text \<open>
  A Go string is a sequence of bytes; it is modelled as a \<open>string\<close> (a list of 8-bit
  characters). \<open>NL\<close> is the byte 0x0A, written \<^verbatim>\<open>"\n"\<close> in the source.
\<close>

abbreviation NL :: char where
  "NL \<equiv> CHR 0x0A"

text \<open>
  \<^verbatim>\<open>strings.Split(s, "\n")\<close> of the Go standard library: the pieces of \<open>s\<close> between
  the separators, in order. The result always has one element more than \<open>s\<close> has
  separators, so the empty string yields the one-element list holding the empty string.
  \<open>splitLines cur s\<close> scans \<open>s\<close> with the piece read so far in \<open>cur\<close>.
\<close>

fun splitLines :: "string \<Rightarrow> string \<Rightarrow> string list" where
  "splitLines cur [] = [cur]"
| "splitLines cur (c # cs) =
     (if c = NL then cur # splitLines [] cs else splitLines (cur @ [c]) cs)"

definition Split :: "string \<Rightarrow> string list" where
  "Split s = splitLines [] s"

section \<open>The conflict diff generator\<close>

text \<open>
  \<^verbatim>\<open>generateDiff(branchContent, localContent)\<close> of \<^verbatim>\<open>internal/git/git.go\<close>.
  \<open>emitLine\<close> is the body of the loop for index \<open>i\<close>: the string written to the
  builder in that iteration. The loop itself is \<open>generateDiff_loop\<close>, which carries the
  builder's content in \<open>result\<close>.
\<close>

definition emitLine :: "string list \<Rightarrow> string list \<Rightarrow> nat \<Rightarrow> string" where
  "emitLine branchLines localLines i =
     (let branchLine = (if i < length branchLines then branchLines ! i else []);
          localLine = (if i < length localLines then localLines ! i else [])
      in if i \<ge> length branchLines then localLine @ [NL]
         else if i \<ge> length localLines then branchLine @ [NL]
         else if branchLine = localLine then localLine @ [NL]
         else (''<<<<<<< HEAD'' @ [NL]) @ (localLine @ [NL]) @ (''======='' @ [NL])
              @ (branchLine @ [NL]) @ (''>>>>>>> branch'' @ [NL]))"

function generateDiff_loop ::
  "string list \<Rightarrow> string list \<Rightarrow> nat \<Rightarrow> nat \<Rightarrow> string \<Rightarrow> string" where
  "generateDiff_loop branchLines localLines maxLen i result =
     (if i < maxLen
      then generateDiff_loop branchLines localLines maxLen (Suc i)
             (result @ emitLine branchLines localLines i)
      else result)"
  by pat_completeness auto
termination
  by (relation "measure (\<lambda>(branchLines, localLines, maxLen, i, result). maxLen - i)") auto

declare generateDiff_loop.simps [simp del]

definition generateDiff :: "string \<Rightarrow> string \<Rightarrow> string" where
  "generateDiff branchContent localContent =
     (let branchLines = Split branchContent;
          localLines = Split localContent;
          maxLen = (if length localLines > length branchLines
                    then length localLines else length branchLines)
      in generateDiff_loop branchLines localLines maxLen 0 [])"

section \<open>The snapshot provider\<close>

text \<open>
  The go-git library is an external collaborator. Its objects are modelled by the
  capabilities the code calls on them; an error value of the library (or of the
  operating system) is represented by its message.
\<close>

type_synonym liberr = string

type_synonym Hash = nat

text \<open>
  \<^verbatim>\<open>merkletrie.Action\<close> has the three constants \<open>Insert\<close>, \<open>Delete\<close> and \<open>Modify\<close>.
  An \<^verbatim>\<open>object.Change\<close> carries the entry on the old side (\<open>From\<close>) and on the new
  side (\<open>To\<close>); \<open>ChangeAction\<close> is what its method \<^verbatim>\<open>Action()\<close> returns: an error,
  or one of the three actions.
\<close>

datatype merkletrie_Action = Insert | Delete | Modify

record ChangeEntry =
  Name :: string

record Change =
  From :: ChangeEntry
  To :: ChangeEntry
  ChangeAction :: "liberr + merkletrie_Action"

text \<open>
  \<^verbatim>\<open>object.File\<close> with its method \<^verbatim>\<open>Contents()\<close>, \<^verbatim>\<open>object.Tree\<close> with its method
  \<^verbatim>\<open>File(path)\<close>, and \<^verbatim>\<open>object.Commit\<close> with its method \<^verbatim>\<open>Tree()\<close>.
\<close>

record TreeFile =
  Contents :: "liberr + string"

record Tree =
  File :: "string \<Rightarrow> liberr + TreeFile"

record Commit =
  CommitTree :: "liberr + Tree"

text \<open>
  A reference as the branch enumerator sees it (\<^verbatim>\<open>ref.Name().IsBranch()\<close>,
  \<^verbatim>\<open>IsRemote()\<close>, \<^verbatim>\<open>Short()\<close>), and the iterator returned by \<^verbatim>\<open>References()\<close>:
  the references it yields and the error, if any, with which \<^verbatim>\<open>ForEach\<close> ends.
\<close>

record RefName =
  IsBranch :: bool
  IsRemote :: bool
  Short :: string

record ReferenceIter =
  Refs :: "RefName list"
  IterError :: "liberr option"

text \<open>
  \<^verbatim>\<open>git.Repository\<close>: \<open>Reference name\<close> is \<^verbatim>\<open>Reference(name, true)\<close> followed by
  \<^verbatim>\<open>Hash()\<close> on the reference found; \<open>TreeDiff a b\<close> is \<^verbatim>\<open>a.Diff(b)\<close>, the changes
  that lead from the tree \<open>a\<close> to the tree \<open>b\<close>. The records it returns are a parameter
  of the model.
\<close>

record Repository =
  References :: "liberr + ReferenceIter"
  Reference :: "string \<Rightarrow> liberr + Hash"
  CommitObject :: "Hash \<Rightarrow> liberr + Commit"
  TreeDiff :: "Tree \<Rightarrow> Tree \<Rightarrow> liberr + Change list"

section \<open>The data of the core\<close>

record FileChange =
  Path :: string
  Action :: string

text \<open>
  \<^verbatim>\<open>Control.repository\<close> is a pointer that is nil until a repository is bound. (The
  field \<^verbatim>\<open>progress\<close> is used by the cloning operation only.)
\<close>

record Control =
  repository :: "Repository option"

text \<open>
  The errors the operations build with \<^verbatim>\<open>fmt.Errorf\<close>, one constructor for each message
  format of \<^verbatim>\<open>internal/git/git.go\<close>, with the branch or path and the wrapped error it
  is given:
  \<^item> \<open>NotInitialized\<close>: the repository is not initialised;
  \<^item> \<open>GetReferencesError\<close>, \<open>IterateReferencesError\<close>: obtaining, iterating the references;
  \<^item> \<open>BranchReferenceError\<close>, \<open>BranchCommitError\<close>, \<open>BranchTreeError\<close>: obtaining the
    reference, the commit, the tree of the named branch;
  \<^item> \<open>CompareTreesError\<close>: comparing the trees;
  \<^item> \<open>FileDeletedOrNotModified\<close>: the file was deleted or not modified;
  \<^item> \<open>BaseContentError\<close>, \<open>TargetContentError\<close>: obtaining the content on the base
    branch, on the caller's branch;
  \<^item> \<open>ReadFileError\<close>: reading the named file from the tree;
  \<^item> \<open>FileNotFoundInDiff\<close>: the named file is not among the differences of the branches;
  \<^item> \<open>ContentError\<close>, \<open>CreateDirError\<close>, \<open>SaveFileError\<close>: obtaining the content of the
    named file, creating the named directory, saving the named file.
\<close>

datatype error =
    NotInitialized
  | GetReferencesError liberr
  | IterateReferencesError liberr
  | BranchReferenceError string liberr
  | BranchCommitError string liberr
  | BranchTreeError string liberr
  | CompareTreesError liberr
  | FileDeletedOrNotModified
  | BaseContentError liberr
  | TargetContentError liberr
  | ReadFileError string liberr
  | FileNotFoundInDiff string
  | ContentError string liberr
  | CreateDirError string liberr
  | SaveFileError string liberr

text \<open>
  What a call does: it returns, or the process panics. A method of \<^verbatim>\<open>git.Repository\<close>
  called through a nil pointer dereferences it, which is a run-time panic in Go.
\<close>

datatype 'a outcome = Panic | Return 'a

definition IsInitialized :: "Control \<Rightarrow> bool" where
  "IsInitialized e = (repository e \<noteq> None)"

section \<open>Branch enumerator\<close>

fun ListBranches_each :: "RefName list \<Rightarrow> string list \<Rightarrow> string list" where
  "ListBranches_each [] branches = branches"
| "ListBranches_each (ref # refs) branches =
     (if IsBranch ref then ListBranches_each refs (branches @ [Short ref])
      else ListBranches_each refs branches)"

definition ListBranches :: "Control \<Rightarrow> (error + string list) outcome" where
  "ListBranches e =
     (case repository e of
        None \<Rightarrow> Return (Inl NotInitialized)
      | Some r \<Rightarrow> Return
         (case References r of
            Inl err \<Rightarrow> Inl (GetReferencesError err)
          | Inr refs \<Rightarrow>
             (case IterError refs of
                Some err \<Rightarrow> Inl (IterateReferencesError err)
              | None \<Rightarrow> Inr (ListBranches_each (Refs refs) []))))"

fun ListAllBranches_each :: "RefName list \<Rightarrow> string list \<Rightarrow> string list" where
  "ListAllBranches_each [] branches = branches"
| "ListAllBranches_each (ref # refs) branches =
     (if IsBranch ref \<or> IsRemote ref then ListAllBranches_each refs (branches @ [Short ref])
      else ListAllBranches_each refs branches)"

definition ListAllBranches :: "Control \<Rightarrow> (error + string list) outcome" where
  "ListAllBranches e =
     (case repository e of
        None \<Rightarrow> Return (Inl NotInitialized)
      | Some r \<Rightarrow> Return
         (case References r of
            Inl err \<Rightarrow> Inl (GetReferencesError err)
          | Inr refs \<Rightarrow>
             (case IterError refs of
                Some err \<Rightarrow> Inl (IterateReferencesError err)
              | None \<Rightarrow> Inr (ListAllBranches_each (Refs refs) []))))"

definition ListLocalBranches :: "Control \<Rightarrow> (error + string list) outcome" where
  "ListLocalBranches e = ListBranches e"

fun ListRemoteBranches_each :: "RefName list \<Rightarrow> string list \<Rightarrow> string list" where
  "ListRemoteBranches_each [] branches = branches"
| "ListRemoteBranches_each (ref # refs) branches =
     (if IsRemote ref then ListRemoteBranches_each refs (branches @ [Short ref])
      else ListRemoteBranches_each refs branches)"

definition ListRemoteBranches :: "Control \<Rightarrow> (error + string list) outcome" where
  "ListRemoteBranches e =
     (case repository e of
        None \<Rightarrow> Return (Inl NotInitialized)
      | Some r \<Rightarrow> Return
         (case References r of
            Inl err \<Rightarrow> Inl (GetReferencesError err)
          | Inr refs \<Rightarrow>
             (case IterError refs of
                Some err \<Rightarrow> Inl (IterateReferencesError err)
              | None \<Rightarrow> Inr (ListRemoteBranches_each (Refs refs) []))))"

section \<open>Tree diff engine\<close>

text \<open>
  Each operation resolves the two branches to their references, commits and trees and
  compares the trees, returning the first failure wrapped with the branch it concerns;
  then it walks the changes. The source repeats the resolution in every operation, and
  so does the model. \<^verbatim>\<open>GetModifiedFiles\<close>, \<^verbatim>\<open>DownloadModifiedFiles\<close> and
  \<^verbatim>\<open>DiffSpecificFile\<close> start with \<^verbatim>\<open>e.repository.Reference(...)\<close> without testing the
  pointer; \<^verbatim>\<open>GetAllChangedFiles\<close> and \<^verbatim>\<open>GetFileChanges\<close> test it first.
\<close>

fun GetModifiedFiles_loop :: "Change list \<Rightarrow> string list \<Rightarrow> string list" where
  "GetModifiedFiles_loop [] modifiedFiles = modifiedFiles"
| "GetModifiedFiles_loop (change # changes) modifiedFiles =
     (case ChangeAction change of
        Inl err \<Rightarrow> GetModifiedFiles_loop changes modifiedFiles
      | Inr action \<Rightarrow>
         (case action of
            Insert \<Rightarrow> GetModifiedFiles_loop changes (modifiedFiles @ [Name (To change)])
          | Modify \<Rightarrow> GetModifiedFiles_loop changes (modifiedFiles @ [Name (To change)])
          | Delete \<Rightarrow> GetModifiedFiles_loop changes modifiedFiles))"

definition GetModifiedFiles :: "Control \<Rightarrow> string \<Rightarrow> string \<Rightarrow> (error + string list) outcome" where
  "GetModifiedFiles e branchName branchBase =
     (case repository e of
        None \<Rightarrow> Panic
      | Some r \<Rightarrow> Return
         (case Reference r (''refs/heads/'' @ branchName) of
            Inl err \<Rightarrow> Inl (BranchReferenceError branchName err)
          | Inr targetRef \<Rightarrow>
          (case Reference r (''refs/heads/'' @ branchBase) of
             Inl err \<Rightarrow> Inl (BranchReferenceError branchBase err)
           | Inr baseRef \<Rightarrow>
           (case CommitObject r targetRef of
              Inl err \<Rightarrow> Inl (BranchCommitError branchName err)
            | Inr targetCommit \<Rightarrow>
            (case CommitObject r baseRef of
               Inl err \<Rightarrow> Inl (BranchCommitError branchBase err)
             | Inr baseCommit \<Rightarrow>
             (case CommitTree targetCommit of
                Inl err \<Rightarrow> Inl (BranchTreeError branchName err)
              | Inr targetTree \<Rightarrow>
              (case CommitTree baseCommit of
                 Inl err \<Rightarrow> Inl (BranchTreeError branchBase err)
               | Inr baseTree \<Rightarrow>
               (case TreeDiff r targetTree baseTree of
                  Inl err \<Rightarrow> Inl (CompareTreesError err)
                | Inr changes \<Rightarrow>
                   Inr (GetModifiedFiles_loop changes [])))))))))"

fun GetAllChangedFiles_loop :: "Change list \<Rightarrow> string list \<Rightarrow> string list" where
  "GetAllChangedFiles_loop [] changedFiles = changedFiles"
| "GetAllChangedFiles_loop (change # changes) changedFiles =
     (case ChangeAction change of
        Inl err \<Rightarrow> GetAllChangedFiles_loop changes changedFiles
      | Inr action \<Rightarrow>
         (case action of
            Insert \<Rightarrow> GetAllChangedFiles_loop changes (changedFiles @ [Name (To change)])
          | Modify \<Rightarrow> GetAllChangedFiles_loop changes (changedFiles @ [Name (To change)])
          | Delete \<Rightarrow> GetAllChangedFiles_loop changes (changedFiles @ [Name (From change)])))"

definition GetAllChangedFiles :: "Control \<Rightarrow> string \<Rightarrow> string \<Rightarrow> (error + string list) outcome" where
  "GetAllChangedFiles e branchName baseBranch =
     (case repository e of
        None \<Rightarrow> Return (Inl NotInitialized)
      | Some r \<Rightarrow> Return
         (case Reference r (''refs/heads/'' @ branchName) of
            Inl err \<Rightarrow> Inl (BranchReferenceError branchName err)
          | Inr targetRef \<Rightarrow>
          (case Reference r (''refs/heads/'' @ baseBranch) of
             Inl err \<Rightarrow> Inl (BranchReferenceError baseBranch err)
           | Inr baseRef \<Rightarrow>
           (case CommitObject r targetRef of
              Inl err \<Rightarrow> Inl (BranchCommitError branchName err)
            | Inr targetCommit \<Rightarrow>
            (case CommitObject r baseRef of
               Inl err \<Rightarrow> Inl (BranchCommitError baseBranch err)
             | Inr baseCommit \<Rightarrow>
             (case CommitTree targetCommit of
                Inl err \<Rightarrow> Inl (BranchTreeError branchName err)
              | Inr targetTree \<Rightarrow>
              (case CommitTree baseCommit of
                 Inl err \<Rightarrow> Inl (BranchTreeError baseBranch err)
               | Inr baseTree \<Rightarrow>
               (case TreeDiff r targetTree baseTree of
                  Inl err \<Rightarrow> Inl (CompareTreesError err)
                | Inr changes \<Rightarrow>
                   Inr (GetAllChangedFiles_loop changes [])))))))))"

fun GetFileChanges_loop :: "Change list \<Rightarrow> FileChange list \<Rightarrow> FileChange list" where
  "GetFileChanges_loop [] fileChanges = fileChanges"
| "GetFileChanges_loop (change # changes) fileChanges =
     (case ChangeAction change of
        Inl err \<Rightarrow> GetFileChanges_loop changes fileChanges
      | Inr action \<Rightarrow>
         (let fc = (case action of
                      Insert \<Rightarrow> \<lparr>Path = Name (To change), Action = ''added''\<rparr>
                    | Modify \<Rightarrow> \<lparr>Path = Name (To change), Action = ''modified''\<rparr>
                    | Delete \<Rightarrow> \<lparr>Path = Name (From change), Action = ''deleted''\<rparr>)
          in GetFileChanges_loop changes (fileChanges @ [fc])))"

definition GetFileChanges :: "Control \<Rightarrow> string \<Rightarrow> string \<Rightarrow> (error + FileChange list) outcome" where
  "GetFileChanges e branchName baseBranch =
     (case repository e of
        None \<Rightarrow> Return (Inl NotInitialized)
      | Some r \<Rightarrow> Return
         (case Reference r (''refs/heads/'' @ branchName) of
            Inl err \<Rightarrow> Inl (BranchReferenceError branchName err)
          | Inr targetRef \<Rightarrow>
          (case Reference r (''refs/heads/'' @ baseBranch) of
             Inl err \<Rightarrow> Inl (BranchReferenceError baseBranch err)
           | Inr baseRef \<Rightarrow>
           (case CommitObject r targetRef of
              Inl err \<Rightarrow> Inl (BranchCommitError branchName err)
            | Inr targetCommit \<Rightarrow>
            (case CommitObject r baseRef of
               Inl err \<Rightarrow> Inl (BranchCommitError baseBranch err)
             | Inr baseCommit \<Rightarrow>
             (case CommitTree targetCommit of
                Inl err \<Rightarrow> Inl (BranchTreeError branchName err)
              | Inr targetTree \<Rightarrow>
              (case CommitTree baseCommit of
                 Inl err \<Rightarrow> Inl (BranchTreeError baseBranch err)
               | Inr baseTree \<Rightarrow>
               (case TreeDiff r targetTree baseTree of
                  Inl err \<Rightarrow> Inl (CompareTreesError err)
                | Inr changes \<Rightarrow>
                   Inr (GetFileChanges_loop changes [])))))))))"

section \<open>Single-file diff\<close>

text \<open>
  The loop of \<^verbatim>\<open>DiffSpecificFile\<close> returns from the function at the first change whose
  action is known and whose new-side name is the file asked for. A file the base tree
  does not have is read as the empty string.
\<close>

fun DiffSpecificFile_loop ::
  "Tree \<Rightarrow> Tree \<Rightarrow> string \<Rightarrow> Change list \<Rightarrow> error + (string \<rightharpoonup> string)" where
  "DiffSpecificFile_loop targetTree baseTree fileName [] = Inl (FileNotFoundInDiff fileName)"
| "DiffSpecificFile_loop targetTree baseTree fileName (change # changes) =
     (case ChangeAction change of
        Inl err \<Rightarrow> DiffSpecificFile_loop targetTree baseTree fileName changes
      | Inr action \<Rightarrow>
         if Name (To change) \<noteq> fileName
         then DiffSpecificFile_loop targetTree baseTree fileName changes
         else if action \<noteq> Insert \<and> action \<noteq> Modify
         then Inl FileDeletedOrNotModified
         else
           (case (case File baseTree fileName of
                    Inl err \<Rightarrow> Inr []
                  | Inr baseFile \<Rightarrow>
                     (case Contents baseFile of
                        Inl err \<Rightarrow> Inl (BaseContentError err)
                      | Inr baseContent \<Rightarrow> Inr baseContent)) of
              Inl e \<Rightarrow> Inl e
            | Inr baseContent \<Rightarrow>
               (case File targetTree fileName of
                  Inl err \<Rightarrow> Inl (ReadFileError fileName err)
                | Inr targetFile \<Rightarrow>
                   (case Contents targetFile of
                      Inl err \<Rightarrow> Inl (TargetContentError err)
                    | Inr targetContent \<Rightarrow>
                       Inr [fileName \<mapsto> generateDiff baseContent targetContent]))))"

definition DiffSpecificFile ::
  "Control \<Rightarrow> string \<Rightarrow> string \<Rightarrow> string \<Rightarrow> (error + (string \<rightharpoonup> string)) outcome" where
  "DiffSpecificFile e branchName branchBase fileName =
     (case repository e of
        None \<Rightarrow> Panic
      | Some r \<Rightarrow> Return
         (case Reference r (''refs/heads/'' @ branchName) of
            Inl err \<Rightarrow> Inl (BranchReferenceError branchName err)
          | Inr targetRef \<Rightarrow>
          (case Reference r (''refs/heads/'' @ branchBase) of
             Inl err \<Rightarrow> Inl (BranchReferenceError branchBase err)
           | Inr baseRef \<Rightarrow>
           (case CommitObject r targetRef of
              Inl err \<Rightarrow> Inl (BranchCommitError branchName err)
            | Inr targetCommit \<Rightarrow>
            (case CommitObject r baseRef of
               Inl err \<Rightarrow> Inl (BranchCommitError branchBase err)
             | Inr baseCommit \<Rightarrow>
             (case CommitTree targetCommit of
                Inl err \<Rightarrow> Inl (BranchTreeError branchName err)
              | Inr targetTree \<Rightarrow>
              (case CommitTree baseCommit of
                 Inl err \<Rightarrow> Inl (BranchTreeError branchBase err)
               | Inr baseTree \<Rightarrow>
               (case TreeDiff r targetTree baseTree of
                  Inl err \<Rightarrow> Inl (CompareTreesError err)
                | Inr changes \<Rightarrow>
                   DiffSpecificFile_loop targetTree baseTree fileName changes))))))))"

section \<open>Change materializer\<close>

text \<open>
  The file system the materializer writes to: the regular files with their content and
  the directories. \<open>OS\<close> holds what the packages \<^verbatim>\<open>os\<close> and \<^verbatim>\<open>path/filepath\<close> decide:
  how paths are joined and split, which paths lie in a directory, and whether creating a
  directory or writing a file fails in a given state. A failing \<^verbatim>\<open>os.MkdirAll\<close> leaves
  the file system as it was. \<^verbatim>\<open>os.WriteFile\<close> opens the file, creating or truncating it,
  and then writes the data: it fails either before the file is open, and the file system
  is as it was, or after, and the file holds a part of the data. For a failing call
  \<open>WriteFile_failure\<close> gives the error and, when the file was opened, what it holds.
\<close>

record FS =
  files :: "string \<rightharpoonup> string"
  dirs :: "string set"

record OS =
  Join :: "string \<Rightarrow> string \<Rightarrow> string"
  Dir :: "string \<Rightarrow> string"
  inside :: "string \<Rightarrow> string \<Rightarrow> bool"
  MkdirAll_error :: "string \<Rightarrow> FS \<Rightarrow> liberr option"
  WriteFile_failure :: "string \<Rightarrow> string \<Rightarrow> FS \<Rightarrow> (liberr \<times> string option) option"

definition RemoveAll :: "OS \<Rightarrow> string \<Rightarrow> FS \<Rightarrow> FS" where
  "RemoveAll os path fs =
     \<lparr>files = (\<lambda>p. if inside os path p then None else files fs p),
      dirs = Set.filter (\<lambda>p. \<not> inside os path p) (dirs fs)\<rparr>"

definition MkdirAll :: "OS \<Rightarrow> string \<Rightarrow> FS \<Rightarrow> liberr option \<times> FS" where
  "MkdirAll os path fs =
     (case MkdirAll_error os path fs of
        Some err \<Rightarrow> (Some err, fs)
      | None \<Rightarrow> (None, fs\<lparr>dirs := insert path (dirs fs)\<rparr>))"

definition WriteFile :: "OS \<Rightarrow> string \<Rightarrow> string \<Rightarrow> FS \<Rightarrow> liberr option \<times> FS" where
  "WriteFile os name content fs =
     (case WriteFile_failure os name content fs of
        None \<Rightarrow> (None, fs\<lparr>files := (files fs)(name \<mapsto> content)\<rparr>)
      | Some (err, None) \<Rightarrow> (Some err, fs)
      | Some (err, Some part) \<Rightarrow> (Some err, fs\<lparr>files := (files fs)(name \<mapsto> part)\<rparr>))"

text \<open>
  \<^verbatim>\<open>DownloadModifiedFiles\<close> returns the pair of the paths written and the error, and
  leaves the file system changed; the model returns the new file system with them.
\<close>

fun DownloadModifiedFiles_loop ::
  "OS \<Rightarrow> Tree \<Rightarrow> string \<Rightarrow> Change list \<Rightarrow> string list \<Rightarrow> FS
     \<Rightarrow> (string list \<times> error option) \<times> FS" where
  "DownloadModifiedFiles_loop os targetTree destDir [] downloaded fs = ((downloaded, None), fs)"
| "DownloadModifiedFiles_loop os targetTree destDir (change # changes) downloaded fs =
     (case ChangeAction change of
        Inl err \<Rightarrow> DownloadModifiedFiles_loop os targetTree destDir changes downloaded fs
      | Inr action \<Rightarrow>
         if action \<noteq> Insert \<and> action \<noteq> Modify
         then DownloadModifiedFiles_loop os targetTree destDir changes downloaded fs
         else
           (let fileName = Name (To change) in
            case File targetTree fileName of
              Inl err \<Rightarrow> ((downloaded, Some (ReadFileError fileName err)), fs)
            | Inr fileInTree \<Rightarrow>
               (case Contents fileInTree of
                  Inl err \<Rightarrow> ((downloaded, Some (ContentError fileName err)), fs)
                | Inr content \<Rightarrow>
                   (let destPath = Join os destDir fileName in
                    case MkdirAll os (Dir os destPath) fs of
                      (Some err, fs1) \<Rightarrow>
                        ((downloaded, Some (CreateDirError (Dir os destPath) err)), fs1)
                    | (None, fs1) \<Rightarrow>
                       (case WriteFile os destPath content fs1 of
                          (Some err, fs2) \<Rightarrow>
                            ((downloaded, Some (SaveFileError destPath err)), fs2)
                        | (None, fs2) \<Rightarrow>
                            DownloadModifiedFiles_loop os targetTree destDir changes
                              (downloaded @ [destPath]) fs2)))))"

definition DownloadModifiedFiles ::
  "OS \<Rightarrow> Control \<Rightarrow> string \<Rightarrow> string \<Rightarrow> string \<Rightarrow> FS
     \<Rightarrow> (string list \<times> error option) outcome \<times> FS" where
  "DownloadModifiedFiles os e branchName branchBase destDir fs =
     (let fs0 = RemoveAll os destDir fs in
      case repository e of
        None \<Rightarrow> (Panic, fs0)
      | Some r \<Rightarrow>
         (case Reference r (''refs/heads/'' @ branchName) of
            Inl err \<Rightarrow> (Return ([], Some (BranchReferenceError branchName err)), fs0)
          | Inr targetRef \<Rightarrow>
          (case Reference r (''refs/heads/'' @ branchBase) of
             Inl err \<Rightarrow> (Return ([], Some (BranchReferenceError branchBase err)), fs0)
           | Inr baseRef \<Rightarrow>
           (case CommitObject r targetRef of
              Inl err \<Rightarrow> (Return ([], Some (BranchCommitError branchName err)), fs0)
            | Inr targetCommit \<Rightarrow>
            (case CommitObject r baseRef of
               Inl err \<Rightarrow> (Return ([], Some (BranchCommitError branchBase err)), fs0)
             | Inr baseCommit \<Rightarrow>
             (case CommitTree targetCommit of
                Inl err \<Rightarrow> (Return ([], Some (BranchTreeError branchName err)), fs0)
              | Inr targetTree \<Rightarrow>
              (case CommitTree baseCommit of
                 Inl err \<Rightarrow> (Return ([], Some (BranchTreeError branchBase err)), fs0)
               | Inr baseTree \<Rightarrow>
               (case TreeDiff r targetTree baseTree of
                  Inl err \<Rightarrow> (Return ([], Some (CompareTreesError err)), fs0)
                | Inr changes \<Rightarrow>
                   (case DownloadModifiedFiles_loop os targetTree destDir changes [] fs0 of
                   (res, fs1) \<Rightarrow> (Return res, fs1))))))))))"

section \<open>The shared resolution, and the classification in the words of the specification\<close>

text \<open>
  \<open>resolveTrees\<close> is the resolution that every operation above starts with, on its own:
  the target tree, the base tree and the changes between them, or the first failure.
  The theorems below use it to say "the branches resolve".
\<close>

definition resolveTrees ::
  "Repository \<Rightarrow> string \<Rightarrow> string \<Rightarrow> error + (Tree \<times> Tree \<times> Change list)" where
  "resolveTrees r branchName branchBase =
     (case Reference r (''refs/heads/'' @ branchName) of
        Inl err \<Rightarrow> Inl (BranchReferenceError branchName err)
      | Inr targetRef \<Rightarrow>
      (case Reference r (''refs/heads/'' @ branchBase) of
         Inl err \<Rightarrow> Inl (BranchReferenceError branchBase err)
       | Inr baseRef \<Rightarrow>
       (case CommitObject r targetRef of
          Inl err \<Rightarrow> Inl (BranchCommitError branchName err)
        | Inr targetCommit \<Rightarrow>
        (case CommitObject r baseRef of
           Inl err \<Rightarrow> Inl (BranchCommitError branchBase err)
         | Inr baseCommit \<Rightarrow>
         (case CommitTree targetCommit of
            Inl err \<Rightarrow> Inl (BranchTreeError branchName err)
          | Inr targetTree \<Rightarrow>
          (case CommitTree baseCommit of
             Inl err \<Rightarrow> Inl (BranchTreeError branchBase err)
           | Inr baseTree \<Rightarrow>
           (case TreeDiff r targetTree baseTree of
              Inl err \<Rightarrow> Inl (CompareTreesError err)
            | Inr changes \<Rightarrow>
               Inr (targetTree, baseTree, changes))))))))"

text \<open>
  The classification as the specification words it: Insert gives Added with the new
  path, Modify gives Modified with the new path, Delete gives Deleted with the old path,
  and a record whose action cannot be determined gives nothing.
\<close>

definition classify :: "Change \<Rightarrow> FileChange list" where
  "classify c =
     (case ChangeAction c of
        Inl err \<Rightarrow> []
      | Inr Insert \<Rightarrow> [\<lparr>Path = Name (To c), Action = ''added''\<rparr>]
      | Inr Modify \<Rightarrow> [\<lparr>Path = Name (To c), Action = ''modified''\<rparr>]
      | Inr Delete \<Rightarrow> [\<lparr>Path = Name (From c), Action = ''deleted''\<rparr>])"

text \<open>
  The materialization as the specification words it (4.5, step 3): for each added or
  modified change, in order, read the content from the target tree, create the parent
  directory under the destination, write the file. \<open>materialize\<close> gives the file system
  after all of them, or \<open>None\<close> when a read, a directory creation or a write fails.
\<close>

fun materialize :: "OS \<Rightarrow> Tree \<Rightarrow> string \<Rightarrow> Change list \<Rightarrow> FS \<Rightarrow> FS option" where
  "materialize os tree destDir [] fs = Some fs"
| "materialize os tree destDir (c # cs) fs =
     (if ChangeAction c = Inr Insert \<or> ChangeAction c = Inr Modify
      then
        (case File tree (Name (To c)) of
           Inl err \<Rightarrow> None
         | Inr file \<Rightarrow>
            (case Contents file of
               Inl err \<Rightarrow> None
             | Inr content \<Rightarrow>
                (case MkdirAll os (Dir os (Join os destDir (Name (To c)))) fs of
                   (Some err, fs1) \<Rightarrow> None
                 | (None, fs1) \<Rightarrow>
                    (case WriteFile os (Join os destDir (Name (To c))) content fs1 of
                       (Some err, fs2) \<Rightarrow> None
                     | (None, fs2) \<Rightarrow> materialize os tree destDir cs fs2))))
      else materialize os tree destDir cs fs)"

section \<open>Scenarios\<close>

text \<open>
  Concrete repositories for the scenarios of the specification: two branches,
  \<open>feature\<close> (the target) and \<open>main\<close> (the base), each with a tree given by its files,
  and the change records the provider reports between them. Change records have the
  shape the library gives them: an inserted path has an empty old side, a deleted path an
  empty new side, and a record with both sides empty has no action.

  The operations call \<^verbatim>\<open>targetTree.Diff(baseTree)\<close>, and the library reports the changes
  that lead from the receiver's tree to the argument's, in the order of the paths. So
  the records of a scenario are: a Delete, with the path on the old side, for a file that
  only the target tree has; an Insert, with the path on the new side, for a file that
  only the base tree has; a Modify for a file that both have with different content.
\<close>

definition scenarioTree :: "(string \<times> string) list \<Rightarrow> Tree" where
  "scenarioTree content =
     \<lparr>File = (\<lambda>path. case map_of content path of
                       None \<Rightarrow> Inl ''file not found''
                     | Some c \<Rightarrow> Inr \<lparr>Contents = Inr c\<rparr>)\<rparr>"

definition scenarioRepository ::
  "(string \<times> string) list \<Rightarrow> (string \<times> string) list \<Rightarrow> Change list \<Rightarrow> Repository" where
  "scenarioRepository target base changes =
     \<lparr>References = Inr \<lparr>Refs = [\<lparr>IsBranch = True, IsRemote = False, Short = ''feature''\<rparr>,
                                  \<lparr>IsBranch = True, IsRemote = False, Short = ''main''\<rparr>],
                          IterError = None\<rparr>,
      Reference = (\<lambda>name. if name = ''refs/heads/feature'' then Inr 1
                          else if name = ''refs/heads/main'' then Inr 2
                          else Inl ''reference not found''),
      CommitObject = (\<lambda>h. if h = 1 then Inr \<lparr>CommitTree = Inr (scenarioTree target)\<rparr>
                          else if h = 2 then Inr \<lparr>CommitTree = Inr (scenarioTree base)\<rparr>
                          else Inl ''object not found''),
      TreeDiff = (\<lambda>a b. Inr changes)\<rparr>"

definition inserted :: "string \<Rightarrow> Change" where
  "inserted path = \<lparr>From = \<lparr>Name = []\<rparr>, To = \<lparr>Name = path\<rparr>, ChangeAction = Inr Insert\<rparr>"

definition modified :: "string \<Rightarrow> Change" where
  "modified path = \<lparr>From = \<lparr>Name = path\<rparr>, To = \<lparr>Name = path\<rparr>, ChangeAction = Inr Modify\<rparr>"

definition deleted :: "string \<Rightarrow> Change" where
  "deleted path = \<lparr>From = \<lparr>Name = path\<rparr>, To = \<lparr>Name = []\<rparr>, ChangeAction = Inr Delete\<rparr>"

definition malformed :: Change where
  "malformed = \<lparr>From = \<lparr>Name = []\<rparr>, To = \<lparr>Name = []\<rparr>,
                 ChangeAction = Inl ''malformed change: empty from and to''\<rparr>"

text \<open>Scenario C: the target branch adds \<open>newfile.txt\<close>, which the base does not have.\<close>

definition scenarioC :: Control where
  "scenarioC = \<lparr>repository = Some (scenarioRepository
      [(''newfile.txt'', ''hello\<newline>'')] [] [deleted ''newfile.txt''])\<rparr>"

text \<open>
  Both branches have \<open>keep.txt\<close>, with different content, and only the target has
  \<open>old.txt\<close>: the change set lists \<open>old.txt\<close> as deleted.
\<close>

definition scenarioDeleted :: Control where
  "scenarioDeleted = \<lparr>repository = Some (scenarioRepository
      [(''keep.txt'', ''k2''), (''old.txt'', ''x\<newline>'')] [(''keep.txt'', ''k1'')]
      [modified ''keep.txt'', deleted ''old.txt''])\<rparr>"

text \<open>
  A modified file, a file only the target has and a file only the base has, with a record
  whose action cannot be determined among their records.
\<close>

definition scenarioMixed :: Control where
  "scenarioMixed = \<lparr>repository = Some (scenarioRepository
      [(''a/b/c.txt'', ''two''), (''new.txt'', ''n'')]
      [(''a/b/c.txt'', ''one''), (''old.txt'', ''o'')]
      [modified ''a/b/c.txt'', malformed, deleted ''new.txt'', inserted ''old.txt''])\<rparr>"

text \<open>
  An operating system on which writing \<open>out/b.txt\<close> fails after the file was created,
  and a repository with three files modified on the target branch.
\<close>

definition scenarioOS :: OS where
  "scenarioOS =
     \<lparr>Join = (\<lambda>dir name. dir @ ''/'' @ name),
      Dir = (\<lambda>path. rev (tl (dropWhile (\<lambda>c. c \<noteq> CHR ''/'') (rev path)))),
      inside = (\<lambda>dir path. path = dir \<or> take (Suc (length dir)) path = dir @ ''/''),
      MkdirAll_error = (\<lambda>path fs. None),
      WriteFile_failure = (\<lambda>path content fs.
                             if path = ''out/b.txt''
                             then Some (''no space left on device'', Some [])
                             else None)\<rparr>"

definition scenarioFS :: FS where
  "scenarioFS = \<lparr>files = [''out/stale.txt'' \<mapsto> ''s''], dirs = {''out''}\<rparr>"

definition scenarioThreeModified :: Control where
  "scenarioThreeModified = \<lparr>repository = Some (scenarioRepository
      [(''a.txt'', ''A2''), (''b.txt'', ''B2''), (''c.txt'', ''C2'')]
      [(''a.txt'', ''A1''), (''b.txt'', ''B1''), (''c.txt'', ''C1'')]
      [modified ''a.txt'', modified ''b.txt'', modified ''c.txt''])\<rparr>"

section \<open>Properties of the line splitter\<close>

lemma splitLines_nonempty: "splitLines cur s \<noteq> []"
  by (induction s arbitrary: cur) auto

lemma Split_nonempty: "Split s \<noteq> []"
  by (simp add: Split_def splitLines_nonempty)

lemma length_Split_pos: "0 < length (Split s)"
  using Split_nonempty [of s] by simp

lemma splitLines_terminated:
  "concat (map (\<lambda>l. l @ [NL]) (splitLines cur s)) = cur @ s @ [NL]"
  by (induction s arbitrary: cur) auto

lemma Split_terminated: "concat (map (\<lambda>l. l @ [NL]) (Split s)) = s @ [NL]"
  by (simp add: Split_def splitLines_terminated)

lemma splitLines_no_NL:
  "NL \<notin> set cur \<Longrightarrow> \<forall>l \<in> set (splitLines cur s). NL \<notin> set l"
proof (induction s arbitrary: cur)
  case Nil
  then show ?case by simp
next
  case (Cons c cs)
  show ?case
  proof (cases "c = NL")
    case True
    with Cons.prems Cons.IH [of "[]"] show ?thesis by simp
  next
    case False
    with Cons.prems Cons.IH [of "cur @ [c]"] show ?thesis by simp
  qed
qed

lemma Split_no_NL: "l \<in> set (Split s) \<Longrightarrow> NL \<notin> set l"
  using splitLines_no_NL [of "[]" s] by (simp add: Split_def)

lemma length_splitLines: "length (splitLines cur s) = Suc (count_list s NL)"
  by (induction s arbitrary: cur) auto

lemma length_Split: "length (Split s) = Suc (count_list s NL)"
  by (simp add: Split_def length_splitLines)

section \<open>The loop as a concatenation of its iterations\<close>

lemma generateDiff_loop_concat:
  "generateDiff_loop bl ll n i r = r @ concat (map (emitLine bl ll) [i..<n])"
proof (induction bl ll n i r rule: generateDiff_loop.induct)
  case (1 bl ll n i r)
  show ?case
  proof (cases "i < n")
    case True
    then have "generateDiff_loop bl ll n i r
                 = generateDiff_loop bl ll n (Suc i) (r @ emitLine bl ll i)"
      by (simp add: generateDiff_loop.simps [of bl ll n i r])
    also have "\<dots> = (r @ emitLine bl ll i) @ concat (map (emitLine bl ll) [Suc i..<n])"
      using "1.IH" True by simp
    also have "\<dots> = r @ concat (map (emitLine bl ll) [i..<n])"
      using True by (simp add: upt_conv_Cons)
    finally show ?thesis .
  next
    case False
    then show ?thesis
      by (simp add: generateDiff_loop.simps [of bl ll n i r])
  qed
qed

lemma generateDiff_concat:
  "generateDiff b l
     = concat (map (emitLine (Split b) (Split l))
                 [0..<max (length (Split b)) (length (Split l))])"
  by (simp add: generateDiff_def Let_def generateDiff_loop_concat max_def)

lemma generateDiff_at:
  assumes "i < max (length (Split b)) (length (Split l))"
  shows "generateDiff b l
           = concat (map (emitLine (Split b) (Split l)) [0..<i])
             @ emitLine (Split b) (Split l) i
             @ concat (map (emitLine (Split b) (Split l))
                         [Suc i..<max (length (Split b)) (length (Split l))])"
proof -
  let ?n = "max (length (Split b)) (length (Split l))"
  have "[0..<?n] = [0..<i] @ i # [Suc i..<?n]"
    using assms
    by (metis le0 less_imp_le_nat upt_conv_Cons le_add_diff_inverse upt_add_eq_append)
  then show ?thesis
    by (simp add: generateDiff_concat)
qed

lemma emitLine_same: "i < length ls \<Longrightarrow> emitLine ls ls i = ls ! i @ [NL]"
  by (simp add: emitLine_def)

lemma concat_emit_same:
  "concat (map (emitLine ls ls) [0..<length ls]) = concat (map (\<lambda>l. l @ [NL]) ls)"
proof -
  have "map (emitLine ls ls) [0..<length ls] = map (\<lambda>i. ls ! i @ [NL]) [0..<length ls]"
    by (simp add: emitLine_same)
  also have "\<dots> = map (\<lambda>l. l @ [NL]) (map (\<lambda>i. ls ! i) [0..<length ls])"
    by simp
  also have "\<dots> = map (\<lambda>l. l @ [NL]) ls"
    by (simp only: map_nth)
  finally show ?thesis by simp
qed

lemma emitLine_last: "emitLine bl ll i \<noteq> [] \<and> last (emitLine bl ll i) = NL"
  by (simp add: emitLine_def Let_def)

lemma emitLine_conflict:
  "i < length bl \<Longrightarrow> i < length ll \<Longrightarrow> bl ! i \<noteq> ll ! i \<Longrightarrow>
   emitLine bl ll i = ''<<<<<<< HEAD'' @ [NL] @ ll ! i @ [NL] @ ''======='' @ [NL] @ bl ! i @ [NL] @ ''>>>>>>> branch'' @ [NL]"
  by (simp add: emitLine_def)

section \<open>The operations after the resolution\<close>

lemma GetFileChanges_resolved:
  "GetFileChanges e t b =
     (case repository e of
        None \<Rightarrow> Return (Inl NotInitialized)
      | Some r \<Rightarrow> Return (case resolveTrees r t b of
                           Inl err \<Rightarrow> Inl err
                         | Inr (tt, bt, changes) \<Rightarrow> Inr (GetFileChanges_loop changes [])))"
  by (simp add: GetFileChanges_def resolveTrees_def split: option.splits sum.splits)

lemma GetAllChangedFiles_resolved:
  "GetAllChangedFiles e t b =
     (case repository e of
        None \<Rightarrow> Return (Inl NotInitialized)
      | Some r \<Rightarrow> Return (case resolveTrees r t b of
                           Inl err \<Rightarrow> Inl err
                         | Inr (tt, bt, changes) \<Rightarrow> Inr (GetAllChangedFiles_loop changes [])))"
  by (simp add: GetAllChangedFiles_def resolveTrees_def split: option.splits sum.splits)

lemma GetModifiedFiles_resolved:
  "GetModifiedFiles e t b =
     (case repository e of
        None \<Rightarrow> Panic
      | Some r \<Rightarrow> Return (case resolveTrees r t b of
                           Inl err \<Rightarrow> Inl err
                         | Inr (tt, bt, changes) \<Rightarrow> Inr (GetModifiedFiles_loop changes [])))"
  by (simp add: GetModifiedFiles_def resolveTrees_def split: option.splits sum.splits)

lemma DiffSpecificFile_resolved:
  "DiffSpecificFile e t b f =
     (case repository e of
        None \<Rightarrow> Panic
      | Some r \<Rightarrow> Return (case resolveTrees r t b of
                           Inl err \<Rightarrow> Inl err
                         | Inr (tt, bt, changes) \<Rightarrow> DiffSpecificFile_loop tt bt f changes))"
  by (simp add: DiffSpecificFile_def resolveTrees_def split: option.splits sum.splits)

lemma DownloadModifiedFiles_resolved:
  "DownloadModifiedFiles os e t b d fs =
     (case repository e of
        None \<Rightarrow> (Panic, RemoveAll os d fs)
      | Some r \<Rightarrow> (case resolveTrees r t b of
                     Inl err \<Rightarrow> (Return ([], Some err), RemoveAll os d fs)
                   | Inr (tt, bt, changes) \<Rightarrow>
                      (case DownloadModifiedFiles_loop os tt d changes [] (RemoveAll os d fs) of
                         (res, fs1) \<Rightarrow> (Return res, fs1))))"
  by (simp add: DownloadModifiedFiles_def resolveTrees_def Let_def split: option.splits sum.splits)

lemma GetFileChanges_loop_classify:
  "GetFileChanges_loop changes acc = acc @ concat (map classify changes)"
  by (induction changes arbitrary: acc)
     (auto simp: classify_def Let_def split: sum.splits merkletrie_Action.splits)

lemma GetAllChangedFiles_loop_classify:
  "GetAllChangedFiles_loop changes acc = acc @ map Path (concat (map classify changes))"
  by (induction changes arbitrary: acc)
     (auto simp: classify_def split: sum.splits merkletrie_Action.splits)

lemma GetModifiedFiles_loop_classify:
  "GetModifiedFiles_loop changes acc
     = acc @ map Path (filter (\<lambda>fc. Action fc = ''added'' \<or> Action fc = ''modified'')
                         (concat (map classify changes)))"
  by (induction changes arbitrary: acc)
     (auto simp: classify_def split: sum.splits merkletrie_Action.splits)

lemma resolveTrees_scenario:
  "resolveTrees (scenarioRepository target base changes) ''feature'' ''main''
     = Inr (scenarioTree target, scenarioTree base, changes)"
  by (simp add: resolveTrees_def scenarioRepository_def)

lemma DiffSpecificFile_loop_skip:
  "Name (To x) \<noteq> f \<Longrightarrow>
   DiffSpecificFile_loop tt bt f (x # xs) = DiffSpecificFile_loop tt bt f xs"
  by (simp split: sum.splits)

lemma DiffSpecificFile_loop_not_found:
  "\<forall>c \<in> set changes. Name (To c) \<noteq> f \<Longrightarrow>
   DiffSpecificFile_loop tt bt f changes = Inl (FileNotFoundInDiff f)"
  by (induction changes) (auto split: sum.splits)

text \<open>
  A deletion has an empty new side. So for a file name that is not empty, the loop never
  answers that the file was deleted: the record of a deleted path is passed over.
\<close>

lemma DiffSpecificFile_loop_delete_unreachable:
  assumes "\<forall>c \<in> set changes. ChangeAction c = Inr Delete \<longrightarrow> Name (To c) = []"
    and "f \<noteq> []"
  shows "DiffSpecificFile_loop tt bt f changes \<noteq> Inl FileDeletedOrNotModified"
  using assms(1)
proof (induction changes)
  case Nil
  then show ?case by simp
next
  case (Cons x xs)
  then have IH: "DiffSpecificFile_loop tt bt f xs \<noteq> Inl FileDeletedOrNotModified" by simp
  show ?case
  proof (cases "Name (To x) = f")
    case False
    then show ?thesis using IH
      by (simp del: DiffSpecificFile_loop.simps add: DiffSpecificFile_loop_skip [OF False])
  next
    case True
    with Cons.prems assms(2) have nd: "ChangeAction x \<noteq> Inr Delete" by auto
    show ?thesis
    proof (cases "ChangeAction x")
      case (Inl err)
      then show ?thesis using IH by simp
    next
      case (Inr action)
      with nd have "action = Insert \<or> action = Modify" by (cases action) auto
      with Inr True show ?thesis by (auto split: sum.splits)
    qed
  qed
qed

lemma GetFileChanges_scenarioMixed:
  "GetFileChanges scenarioMixed ''feature'' ''main''
     = Return (Inr [\<lparr>Path = ''a/b/c.txt'', Action = ''modified''\<rparr>,
                    \<lparr>Path = ''new.txt'', Action = ''deleted''\<rparr>,
                    \<lparr>Path = ''old.txt'', Action = ''added''\<rparr>])"
  by (simp add: GetFileChanges_resolved scenarioMixed_def resolveTrees_scenario
        inserted_def malformed_def modified_def deleted_def)

lemma DownloadModifiedFiles_loop_append:
  "DownloadModifiedFiles_loop os tt d (xs @ ys) dl fs =
     (case DownloadModifiedFiles_loop os tt d xs dl fs of
        ((dl1, None), fs1) \<Rightarrow> DownloadModifiedFiles_loop os tt d ys dl1 fs1
      | ((dl1, Some e), fs1) \<Rightarrow> ((dl1, Some e), fs1))"
  by (induction xs arbitrary: dl fs)
     (auto simp: Let_def split: sum.splits prod.splits option.splits)

lemma DownloadModifiedFiles_loop_Cons:
  "DownloadModifiedFiles_loop os tt d (c # cs) dl fs =
     (case DownloadModifiedFiles_loop os tt d [c] dl fs of
        ((dl1, None), fs1) \<Rightarrow> DownloadModifiedFiles_loop os tt d cs dl1 fs1
      | ((dl1, Some e), fs1) \<Rightarrow> ((dl1, Some e), fs1))"
  using DownloadModifiedFiles_loop_append [of os tt d "[c]" cs dl fs] by simp

lemma MkdirAll_files: "MkdirAll os path fs = (eo, fs1) \<Longrightarrow> files fs1 = files fs"
  by (auto simp: MkdirAll_def split: option.splits)

lemma WriteFile_keeps:
  "WriteFile os name content fs = (eo, fs1) \<Longrightarrow> files fs p \<noteq> None \<Longrightarrow> files fs1 p \<noteq> None"
  by (auto simp: WriteFile_def split: option.splits prod.splits)

lemma WriteFile_written: "WriteFile os name content fs = (None, fs1) \<Longrightarrow> files fs1 name \<noteq> None"
  by (auto simp: WriteFile_def split: option.splits prod.splits)

lemma MkdirAll_WriteFile_keeps:
  "MkdirAll os path fs = (eo, fs1) \<Longrightarrow> WriteFile os name content fs1 = (eo', fs2) \<Longrightarrow>
   files fs p = Some y \<Longrightarrow> \<exists>y. files fs2 p = Some y"
  using MkdirAll_files [of os path fs eo fs1] WriteFile_keeps [of os name content fs1 eo' fs2 p]
  by auto

lemma DownloadModifiedFiles_step_fails:
  assumes "DownloadModifiedFiles_loop os tt d [c] dl fs = ((dl1, Some e), fs1)"
  shows "dl1 = dl \<and> (\<forall>p. files fs p \<noteq> None \<longrightarrow> files fs1 p \<noteq> None)"
  using assms
  by (auto simp: Let_def split: sum.splits prod.splits option.splits if_splits
      dest: MkdirAll_files intro: MkdirAll_WriteFile_keeps)

lemma DownloadModifiedFiles_step_succeeds:
  assumes "DownloadModifiedFiles_loop os tt d [c] dl fs = ((dl1, None), fs1)"
  shows "(\<forall>p. files fs p \<noteq> None \<longrightarrow> files fs1 p \<noteq> None)
         \<and> (\<forall>p \<in> set dl1. p \<in> set dl \<or> files fs1 p \<noteq> None)"
  using assms
  by (auto simp: Let_def split: sum.splits prod.splits option.splits if_splits
      dest: MkdirAll_files WriteFile_written intro: MkdirAll_WriteFile_keeps)

lemma DownloadModifiedFiles_loop_present:
  "DownloadModifiedFiles_loop os tt d cs dl fs = ((dl1, eo), fs1) \<Longrightarrow>
   \<forall>p \<in> set dl. files fs p \<noteq> None \<Longrightarrow> \<forall>p \<in> set dl1. files fs1 p \<noteq> None"
proof (induction cs arbitrary: dl fs)
  case Nil
  then show ?case by simp
next
  case (Cons c cs)
  obtain dl' eo' fs' where step: "DownloadModifiedFiles_loop os tt d [c] dl fs = ((dl', eo'), fs')"
    by (metis surj_pair)
  show ?case
  proof (cases eo')
    case None
    with step Cons.prems(1)
    have rest: "DownloadModifiedFiles_loop os tt d cs dl' fs' = ((dl1, eo), fs1)"
      by (simp del: DownloadModifiedFiles_loop.simps
          add: DownloadModifiedFiles_loop_Cons [of os tt d c cs])
    have "\<forall>p \<in> set dl'. files fs' p \<noteq> None"
      using DownloadModifiedFiles_step_succeeds [OF step [unfolded None]] Cons.prems(2)
      by blast
    with rest show ?thesis by (rule Cons.IH)
  next
    case (Some e)
    with step Cons.prems(1) have "dl1 = dl'" "fs1 = fs'"
      by (simp_all del: DownloadModifiedFiles_loop.simps
          add: DownloadModifiedFiles_loop_Cons [of os tt d c cs])
    moreover have "dl' = dl \<and> (\<forall>p. files fs p \<noteq> None \<longrightarrow> files fs' p \<noteq> None)"
      using DownloadModifiedFiles_step_fails [OF step [unfolded Some]] .
    ultimately show ?thesis using Cons.prems(2) by simp
  qed
qed

text \<open>
  When every read and write of the specification's materialization succeeds, the loop
  returns the destination paths of the added and modified records, in order, with no
  error, and leaves the same file system.
\<close>

lemma DownloadModifiedFiles_loop_materialize:
  "materialize os tt d cs fs = Some fs1 \<Longrightarrow>
   DownloadModifiedFiles_loop os tt d cs dl fs
     = ((dl @ map (\<lambda>c. Join os d (Name (To c)))
                (filter (\<lambda>c. ChangeAction c = Inr Insert \<or> ChangeAction c = Inr Modify) cs),
         None), fs1)"
proof (induction cs arbitrary: dl fs)
  case Nil
  then show ?case by simp
next
  case (Cons c cs)
  show ?case
  proof (cases "ChangeAction c = Inr Insert \<or> ChangeAction c = Inr Modify")
    case False
    with Cons.prems have "materialize os tt d cs fs = Some fs1" by simp
    from Cons.IH [OF this, of dl] False show ?thesis
      by (auto split: sum.splits merkletrie_Action.splits)
  next
    case True
    with Cons.prems obtain fileInTree content fs2 fs3 where
      f: "File tt (Name (To c)) = Inr fileInTree" and
      c: "Contents fileInTree = Inr content" and
      m: "MkdirAll os (Dir os (Join os d (Name (To c)))) fs = (None, fs2)" and
      w: "WriteFile os (Join os d (Name (To c))) content fs2 = (None, fs3)" and
      r: "materialize os tt d cs fs3 = Some fs1"
      by (auto split: sum.splits prod.splits option.splits)
    from Cons.IH [OF r, of "dl @ [Join os d (Name (To c))]"] True f c m w
    show ?thesis by (auto simp: Let_def)
  qed
qed

text \<open>The step for one added or modified record, by what its reads and writes do.\<close>

lemma DownloadModifiedFiles_loop_read_fails:
  "ChangeAction c = Inr Insert \<or> ChangeAction c = Inr Modify \<Longrightarrow>
   File tt (Name (To c)) = Inl lerr \<Longrightarrow>
   DownloadModifiedFiles_loop os tt d (c # cs) dl fs
     = ((dl, Some (ReadFileError (Name (To c)) lerr)), fs)"
  by (auto simp: Let_def)

lemma DownloadModifiedFiles_loop_content_fails:
  "ChangeAction c = Inr Insert \<or> ChangeAction c = Inr Modify \<Longrightarrow>
   File tt (Name (To c)) = Inr fileInTree \<Longrightarrow> Contents fileInTree = Inl lerr \<Longrightarrow>
   DownloadModifiedFiles_loop os tt d (c # cs) dl fs
     = ((dl, Some (ContentError (Name (To c)) lerr)), fs)"
  by (auto simp: Let_def)

lemma DownloadModifiedFiles_loop_mkdir_fails:
  "ChangeAction c = Inr Insert \<or> ChangeAction c = Inr Modify \<Longrightarrow>
   File tt (Name (To c)) = Inr fileInTree \<Longrightarrow> Contents fileInTree = Inr content \<Longrightarrow>
   MkdirAll os (Dir os (Join os d (Name (To c)))) fs = (Some lerr, fs2) \<Longrightarrow>
   DownloadModifiedFiles_loop os tt d (c # cs) dl fs
     = ((dl, Some (CreateDirError (Dir os (Join os d (Name (To c)))) lerr)), fs2)"
  by (auto simp: Let_def)

lemma DownloadModifiedFiles_loop_write_fails:
  "ChangeAction c = Inr Insert \<or> ChangeAction c = Inr Modify \<Longrightarrow>
   File tt (Name (To c)) = Inr fileInTree \<Longrightarrow> Contents fileInTree = Inr content \<Longrightarrow>
   MkdirAll os (Dir os (Join os d (Name (To c)))) fs = (None, fs2) \<Longrightarrow>
   WriteFile os (Join os d (Name (To c))) content fs2 = (Some lerr, fs3) \<Longrightarrow>
   DownloadModifiedFiles_loop os tt d (c # cs) dl fs
     = ((dl, Some (SaveFileError (Join os d (Name (To c))) lerr)), fs3)"
  by (auto simp: Let_def)

section \<open>Claims about the conflict diff generator\<close>

text \<open>
  Claim C1, as the code has it: for every string \<open>a\<close>, the generator applied to two
  identical inputs returns \<open>a\<close> followed by one newline. Every line of \<open>a\<close> is
  emitted once, newline-terminated, and no conflict block is emitted.
\<close>

theorem generateDiff_identical:
  "generateDiff a a = a @ [NL] \<and> generateDiff a a = concat (map (\<lambda>l. l @ [NL]) (Split a))"
  by (simp add: generateDiff_concat concat_emit_same Split_terminated)

text \<open>
  Claim C1 as stated (the input comes back unchanged) fails on the one-line input \<open>x\<close>.
\<close>

theorem generateDiff_identical_counterexample: "generateDiff ''x'' ''x'' \<noteq> ''x''"
  by (simp add: generateDiff_concat Split_def emitLine_def)

text \<open>
  Claim C4: at every line index \<open>i\<close> where both inputs have a line and the lines differ,
  the output holds, after the segments of the indices below \<open>i\<close> and before those of
  the indices above, exactly the five-line block: the marker \<^verbatim>\<open><<<<<<< HEAD\<close>, the
  ours (target) line, the marker \<^verbatim>\<open>=======\<close>, the theirs (base) line, the marker
  \<^verbatim>\<open>>>>>>>> branch\<close>, each newline-terminated; the two lines hold no newline
  themselves. The block belongs to the one index, so adjacent differing lines give
  separate blocks.
\<close>

theorem generateDiff_conflict_block:
  assumes "i < length (Split theirs)" and "i < length (Split ours)"
    and "Split theirs ! i \<noteq> Split ours ! i"
  shows "generateDiff theirs ours
           = concat (map (emitLine (Split theirs) (Split ours)) [0..<i])
             @ (''<<<<<<< HEAD'' @ [NL] @ Split ours ! i @ [NL] @ ''======='' @ [NL]
                @ Split theirs ! i @ [NL] @ ''>>>>>>> branch'' @ [NL])
             @ concat (map (emitLine (Split theirs) (Split ours))
                         [Suc i..<max (length (Split theirs)) (length (Split ours))])
         \<and> NL \<notin> set (Split ours ! i) \<and> NL \<notin> set (Split theirs ! i)"
proof -
  have "i < max (length (Split theirs)) (length (Split ours))" using assms(1) by simp
  from generateDiff_at [OF this] emitLine_conflict [OF assms]
  have "generateDiff theirs ours
           = concat (map (emitLine (Split theirs) (Split ours)) [0..<i])
             @ (''<<<<<<< HEAD'' @ [NL] @ Split ours ! i @ [NL] @ ''======='' @ [NL]
                @ Split theirs ! i @ [NL] @ ''>>>>>>> branch'' @ [NL])
             @ concat (map (emitLine (Split theirs) (Split ours))
                         [Suc i..<max (length (Split theirs)) (length (Split ours))])"
    by simp
  moreover have "NL \<notin> set (Split ours ! i)" "NL \<notin> set (Split theirs ! i)"
    using assms(1,2) Split_no_NL nth_mem by blast+
  ultimately show ?thesis by simp
qed

text \<open>
  Two adjacent differing lines produce two separate blocks.
\<close>

theorem generateDiff_conflict_block_witness:
  "Suc 0 < length (Split ''a\<newline>b'') \<and> Suc 0 < length (Split ''c\<newline>d'')
   \<and> Split ''a\<newline>b'' ! Suc 0 \<noteq> Split ''c\<newline>d'' ! Suc 0
   \<and> generateDiff ''a\<newline>b'' ''c\<newline>d''
       = ''<<<<<<< HEAD\<newline>c\<newline>=======\<newline>a\<newline>>>>>>>> branch\<newline>''
         @ ''<<<<<<< HEAD\<newline>d\<newline>=======\<newline>b\<newline>>>>>>>> branch\<newline>''"
proof -
  have h: "Suc 0 < length (Split ''a\<newline>b'')" "Suc 0 < length (Split ''c\<newline>d'')"
    "Split ''a\<newline>b'' ! Suc 0 \<noteq> Split ''c\<newline>d'' ! Suc 0"
    by (simp_all add: Split_def)
  show ?thesis
    using h generateDiff_conflict_block [OF h]
    by (simp add: Split_def emitLine_def)
qed

text \<open>
  Claim C9: the output has at least \<open>max (lines a) (lines b)\<close> lines, counted as
  newline-terminated lines or as the pieces \<open>Split\<close> yields, and at every index where
  both inputs have a line and the lines are equal the output holds that line, once,
  at that position.
\<close>

theorem generateDiff_line_count:
  "max (length (Split a)) (length (Split b)) \<le> count_list (generateDiff a b) NL
   \<and> max (length (Split a)) (length (Split b)) \<le> length (Split (generateDiff a b))
   \<and> (i < length (Split a) \<and> i < length (Split b) \<and> Split a ! i = Split b ! i \<longrightarrow>
        generateDiff a b
          = concat (map (emitLine (Split a) (Split b)) [0..<i])
            @ (Split b ! i @ [NL])
            @ concat (map (emitLine (Split a) (Split b))
                        [Suc i..<max (length (Split a)) (length (Split b))]))"
proof -
  let ?n = "max (length (Split a)) (length (Split b))"
  let ?e = "emitLine (Split a) (Split b)"
  have one: "1 \<le> count_list (?e j) NL" for j
    by (simp add: emitLine_def Let_def)
  have "length js \<le> count_list (concat (map ?e js)) NL" for js
  proof (induction js)
    case Nil
    then show ?case by simp
  next
    case (Cons j js)
    with one [of j] show ?case by simp
  qed
  from this [of "[0..<?n]"]
  have c: "?n \<le> count_list (generateDiff a b) NL"
    by (simp add: generateDiff_concat)
  then have l: "?n \<le> length (Split (generateDiff a b))"
    by (simp only: length_Split [of "generateDiff a b"] le_SucI)
  have "generateDiff a b = concat (map ?e [0..<i]) @ (Split b ! i @ [NL])
            @ concat (map ?e [Suc i..<?n])"
    if h: "i < length (Split a)" "i < length (Split b)" "Split a ! i = Split b ! i"
  proof -
    have "i < ?n" using h(1) by simp
    from generateDiff_at [OF this] have "generateDiff a b = concat (map ?e [0..<i]) @ ?e i @ concat (map ?e [Suc i..<?n])" .
    moreover have "?e i = Split b ! i @ [NL]" using h by (simp add: emitLine_def)
    ultimately show ?thesis by simp
  qed
  with c l show ?thesis by blast
qed

text \<open>
  Scenario A of the specification: line 0 verbatim, then a conflict block.
\<close>

theorem generateDiff_line_count_witness:
  "max (length (Split ''x\<newline>y\<newline>'')) (length (Split ''x\<newline>z\<newline>'')) = 3
   \<and> count_list (generateDiff ''x\<newline>y\<newline>'' ''x\<newline>z\<newline>'') NL = 7
   \<and> generateDiff ''x\<newline>y\<newline>'' ''x\<newline>z\<newline>''
       = ''x\<newline>'' @ ''<<<<<<< HEAD\<newline>z\<newline>=======\<newline>y\<newline>>>>>>>> branch\<newline>'' @ ''\<newline>''"
proof -
  have h: "0 < length (Split ''x\<newline>y\<newline>'') \<and> 0 < length (Split ''x\<newline>z\<newline>'')
           \<and> Split ''x\<newline>y\<newline>'' ! 0 = Split ''x\<newline>z\<newline>'' ! 0"
    by (simp add: Split_def)
  from generateDiff_line_count [of "''x\<newline>y\<newline>''" "''x\<newline>z\<newline>''" 0] h
  have "generateDiff ''x\<newline>y\<newline>'' ''x\<newline>z\<newline>''
          = concat (map (emitLine (Split ''x\<newline>y\<newline>'') (Split ''x\<newline>z\<newline>'')) [0..<0])
            @ (Split ''x\<newline>z\<newline>'' ! 0 @ [NL])
            @ concat (map (emitLine (Split ''x\<newline>y\<newline>'') (Split ''x\<newline>z\<newline>''))
                        [Suc 0..<max (length (Split ''x\<newline>y\<newline>'')) (length (Split ''x\<newline>z\<newline>''))])"
    by blast
  then have g: "generateDiff ''x\<newline>y\<newline>'' ''x\<newline>z\<newline>''
       = ''x\<newline>'' @ ''<<<<<<< HEAD\<newline>z\<newline>=======\<newline>y\<newline>>>>>>>> branch\<newline>'' @ ''\<newline>''"
    by (simp add: Split_def emitLine_def upt_conv_Cons)
  show ?thesis
    by (simp add: g) (simp add: Split_def)
qed

text \<open>
  Claim C10: every segment the loop emits is non-empty and ends in a newline, the loop
  runs at least once, and so the output is never empty and ends in a newline; on two
  empty strings it is the single newline.
\<close>

theorem generateDiff_newline_terminated:
  "emitLine (Split a) (Split b) i \<noteq> [] \<and> last (emitLine (Split a) (Split b) i) = NL
   \<and> 0 < max (length (Split a)) (length (Split b))
   \<and> generateDiff a b \<noteq> [] \<and> last (generateDiff a b) = NL
   \<and> generateDiff [] [] = [NL]"
proof -
  let ?n = "max (length (Split a)) (length (Split b))"
  let ?e = "emitLine (Split a) (Split b)"
  have pos: "0 < ?n" using Split_nonempty [of a] by (simp add: less_max_iff_disj)
  then obtain m where m: "?n = Suc m" by (cases ?n) auto
  have "generateDiff a b = concat (map ?e [0..<m]) @ ?e m"
    by (simp add: generateDiff_concat m)
  then have "generateDiff a b \<noteq> [] \<and> last (generateDiff a b) = NL"
    using emitLine_last [of "Split a" "Split b" m] by simp
  moreover have "generateDiff [] [] = [NL]"
    by (simp add: generateDiff_concat Split_def emitLine_def)
  ultimately show ?thesis using pos emitLine_last [of "Split a" "Split b" i] by simp
qed

section \<open>Claims about the tree diff engine and the single-file diff\<close>

text \<open>
  Claim C6: when the branches resolve, \<open>GetFileChanges\<close> returns, without an error,
  the classification of the change records in their order: Insert as added with the new
  path, Modify as modified with the new path, Delete as deleted with the old path, and
  nothing for a record whose action cannot be determined.
\<close>

theorem GetFileChanges_classification:
  assumes "repository e = Some r"
    and "resolveTrees r branchName baseBranch = Inr (targetTree, baseTree, changes)"
  shows "GetFileChanges e branchName baseBranch = Return (Inr (concat (map classify changes)))"
  using assms by (simp add: GetFileChanges_resolved GetFileChanges_loop_classify)

text \<open>
  A change list with a modified, a malformed, a deleted and an inserted record.
\<close>

theorem GetFileChanges_classification_witness:
  "GetFileChanges scenarioMixed ''feature'' ''main''
     = Return (Inr [\<lparr>Path = ''a/b/c.txt'', Action = ''modified''\<rparr>,
                    \<lparr>Path = ''new.txt'', Action = ''deleted''\<rparr>,
                    \<lparr>Path = ''old.txt'', Action = ''added''\<rparr>])"
proof -
  have h1: "repository scenarioMixed = Some (scenarioRepository
      [(''a/b/c.txt'', ''two''), (''new.txt'', ''n'')]
      [(''a/b/c.txt'', ''one''), (''old.txt'', ''o'')]
      [modified ''a/b/c.txt'', malformed, deleted ''new.txt'', inserted ''old.txt''])"
    by (simp add: scenarioMixed_def)
  show ?thesis
    using GetFileChanges_classification [OF h1 resolveTrees_scenario]
    by (simp add: classify_def inserted_def malformed_def modified_def deleted_def)
qed

text \<open>
  Claim C7: whenever \<open>GetFileChanges\<close> returns a list for two branches,
  \<open>GetModifiedFiles\<close> returns the paths of its added and modified entries and
  \<open>GetAllChangedFiles\<close> the paths of all its entries, in the same order.
\<close>

theorem query_shapes_agree:
  assumes "GetFileChanges e branchName baseBranch = Return (Inr fileChanges)"
  shows "GetModifiedFiles e branchName baseBranch
           = Return (Inr (map Path (filter (\<lambda>fc. Action fc = ''added'' \<or> Action fc = ''modified'')
                                      fileChanges)))
         \<and> GetAllChangedFiles e branchName baseBranch = Return (Inr (map Path fileChanges))"
  using assms
  by (auto simp: GetFileChanges_resolved GetModifiedFiles_resolved GetAllChangedFiles_resolved
        GetFileChanges_loop_classify GetModifiedFiles_loop_classify
        GetAllChangedFiles_loop_classify
      split: option.splits sum.splits)

text \<open>
  The three query shapes on the mixed change list.
\<close>

theorem query_shapes_agree_witness:
  "GetModifiedFiles scenarioMixed ''feature'' ''main'' = Return (Inr [''a/b/c.txt'', ''old.txt''])
   \<and> GetAllChangedFiles scenarioMixed ''feature'' ''main''
       = Return (Inr [''a/b/c.txt'', ''new.txt'', ''old.txt''])"
  using query_shapes_agree [OF GetFileChanges_scenarioMixed] by simp

text \<open>
  Claim C2 in scenario C: the target branch adds \<open>newfile.txt\<close>, the record the provider
  reports for it is a Delete, and so \<open>GetFileChanges\<close> classifies the file as deleted,
  not as added, \<open>GetModifiedFiles\<close> leaves it out, and \<open>DiffSpecificFile\<close> on it ends
  with the error that the file is not among the differences instead of returning the
  target content.
\<close>

theorem added_file_reported_deleted:
  "GetFileChanges scenarioC ''feature'' ''main''
     = Return (Inr [\<lparr>Path = ''newfile.txt'', Action = ''deleted''\<rparr>])
   \<and> GetModifiedFiles scenarioC ''feature'' ''main'' = Return (Inr [])
   \<and> DiffSpecificFile scenarioC ''feature'' ''main'' ''newfile.txt''
     = Return (Inl (FileNotFoundInDiff ''newfile.txt''))"
  by (simp add: DiffSpecificFile_resolved GetFileChanges_resolved GetModifiedFiles_resolved
        scenarioC_def resolveTrees_scenario deleted_def)

text \<open>
  Claim C5 at a deleted path: the change set holds \<open>old.txt\<close> as deleted, and
  \<open>DiffSpecificFile\<close> on \<open>old.txt\<close> compares the name on the new side of the record,
  which is empty for a deletion, passes the record over and ends with the error that the
  file is not among the differences, not with the error that it was deleted.
\<close>

theorem DiffSpecificFile_deleted_path:
  "GetFileChanges scenarioDeleted ''feature'' ''main''
     = Return (Inr [\<lparr>Path = ''keep.txt'', Action = ''modified''\<rparr>,
                    \<lparr>Path = ''old.txt'', Action = ''deleted''\<rparr>])
   \<and> DiffSpecificFile scenarioDeleted ''feature'' ''main'' ''old.txt''
     = Return (Inl (FileNotFoundInDiff ''old.txt''))"
  by (simp add: DiffSpecificFile_resolved GetFileChanges_resolved scenarioDeleted_def
        resolveTrees_scenario deleted_def modified_def)

text \<open>
  Claim C3 with no repository bound: the branch listings, \<open>GetAllChangedFiles\<close> and
  \<open>GetFileChanges\<close> return the error \<open>NotInitialized\<close>; \<open>GetModifiedFiles\<close>,
  \<open>DiffSpecificFile\<close> and \<open>DownloadModifiedFiles\<close> panic, the last one after it has
  cleared the destination directory.
\<close>

theorem unbound_repository_outcomes:
  "GetModifiedFiles \<lparr>repository = None\<rparr> branchName branchBase = Panic
   \<and> DiffSpecificFile \<lparr>repository = None\<rparr> branchName branchBase fileName = Panic
   \<and> DownloadModifiedFiles os \<lparr>repository = None\<rparr> branchName branchBase destDir fs
       = (Panic, RemoveAll os destDir fs)
   \<and> ListBranches \<lparr>repository = None\<rparr> = Return (Inl NotInitialized)
   \<and> ListAllBranches \<lparr>repository = None\<rparr> = Return (Inl NotInitialized)
   \<and> ListRemoteBranches \<lparr>repository = None\<rparr> = Return (Inl NotInitialized)
   \<and> GetAllChangedFiles \<lparr>repository = None\<rparr> branchName branchBase = Return (Inl NotInitialized)
   \<and> GetFileChanges \<lparr>repository = None\<rparr> branchName branchBase = Return (Inl NotInitialized)"
  by (simp add: GetModifiedFiles_def DiffSpecificFile_def DownloadModifiedFiles_def
        ListBranches_def ListAllBranches_def ListRemoteBranches_def GetAllChangedFiles_def
        GetFileChanges_def)

section \<open>Claims about the change materializer\<close>

text \<open>
  Claim C8: the branches resolve, every added or modified record before some record is
  read and written without failure, and for that record, itself added or modified, the
  read of the file from the target tree, the read of its content, the creation of the
  directory or the write of the file fails. Then \<open>DownloadModifiedFiles\<close> stops there:
  it returns the error of the failing call together with the destination paths written
  before, one for each added or modified record, in order, and it leaves the file system
  as the failing call left it, in which every returned path is still present.
\<close>

theorem DownloadModifiedFiles_partial:
  assumes "repository e = Some r"
    and "resolveTrees r branchName branchBase = Inr (targetTree, baseTree, before @ change # after)"
    and "materialize os targetTree destDir before (RemoveAll os destDir fs) = Some fs1"
    and "written = map (\<lambda>c. Join os destDir (Name (To c)))
                     (filter (\<lambda>c. ChangeAction c = Inr Insert \<or> ChangeAction c = Inr Modify)
                        before)"
    and "ChangeAction change = Inr Insert \<or> ChangeAction change = Inr Modify"
    and "fileName = Name (To change)" and "destPath = Join os destDir fileName"
  shows "(File targetTree fileName = Inl lerr \<longrightarrow>
            DownloadModifiedFiles os e branchName branchBase destDir fs
              = (Return (written, Some (ReadFileError fileName lerr)), fs1)
            \<and> (\<forall>p \<in> set written. files fs1 p \<noteq> None))
         \<and> (File targetTree fileName = Inr fileInTree \<and> Contents fileInTree = Inl lerr \<longrightarrow>
            DownloadModifiedFiles os e branchName branchBase destDir fs
              = (Return (written, Some (ContentError fileName lerr)), fs1)
            \<and> (\<forall>p \<in> set written. files fs1 p \<noteq> None))
         \<and> (File targetTree fileName = Inr fileInTree \<and> Contents fileInTree = Inr content
            \<and> MkdirAll os (Dir os destPath) fs1 = (Some lerr, fsDir) \<longrightarrow>
            DownloadModifiedFiles os e branchName branchBase destDir fs
              = (Return (written, Some (CreateDirError (Dir os destPath) lerr)), fsDir)
            \<and> (\<forall>p \<in> set written. files fsDir p \<noteq> None))
         \<and> (File targetTree fileName = Inr fileInTree \<and> Contents fileInTree = Inr content
            \<and> MkdirAll os (Dir os destPath) fs1 = (None, fsDir)
            \<and> WriteFile os destPath content fsDir = (Some lerr, fsFile) \<longrightarrow>
            DownloadModifiedFiles os e branchName branchBase destDir fs
              = (Return (written, Some (SaveFileError destPath lerr)), fsFile)
            \<and> (\<forall>p \<in> set written. files fsFile p \<noteq> None))"
proof -
  let ?fs0 = "RemoveAll os destDir fs"
  let ?loop = "DownloadModifiedFiles_loop os targetTree destDir"
  have pre: "?loop before [] ?fs0 = ((written, None), fs1)"
    using DownloadModifiedFiles_loop_materialize [OF assms(3), of "[]"] assms(4) by simp
  have present: "\<forall>p \<in> set written. files fs1 p \<noteq> None"
    using DownloadModifiedFiles_loop_present [OF pre] by simp
  have run: "DownloadModifiedFiles os e branchName branchBase destDir fs = (Return res, fsx)"
    if "?loop (change # after) written fs1 = (res, fsx)" for res fsx
  proof -
    have "?loop (before @ change # after) [] ?fs0 = (res, fsx)"
      using pre that
      by (simp del: DownloadModifiedFiles_loop.simps add: DownloadModifiedFiles_loop_append)
    then show ?thesis
      using assms(1,2) by (simp add: DownloadModifiedFiles_resolved)
  qed
  have 1: "DownloadModifiedFiles os e branchName branchBase destDir fs
              = (Return (written, Some (ReadFileError fileName lerr)), fs1)"
    if "File targetTree fileName = Inl lerr"
    using that assms(6)
      run [OF DownloadModifiedFiles_loop_read_fails [OF assms(5), of targetTree lerr os destDir after written fs1]]
    by simp
  have 2: "DownloadModifiedFiles os e branchName branchBase destDir fs
              = (Return (written, Some (ContentError fileName lerr)), fs1)"
    if "File targetTree fileName = Inr fileInTree" "Contents fileInTree = Inl lerr"
    using that assms(6)
      run [OF DownloadModifiedFiles_loop_content_fails [OF assms(5), of targetTree fileInTree lerr os destDir after written fs1]]
    by simp
  have 3: "DownloadModifiedFiles os e branchName branchBase destDir fs
              = (Return (written, Some (CreateDirError (Dir os destPath) lerr)), fsDir)
           \<and> (\<forall>p \<in> set written. files fsDir p \<noteq> None)"
    if "File targetTree fileName = Inr fileInTree" "Contents fileInTree = Inr content"
      "MkdirAll os (Dir os destPath) fs1 = (Some lerr, fsDir)"
    using that assms(6,7) present MkdirAll_files [OF that(3)]
      run [OF DownloadModifiedFiles_loop_mkdir_fails [OF assms(5), of targetTree fileInTree content os destDir fs1 lerr fsDir after written]]
    by simp
  have 4: "DownloadModifiedFiles os e branchName branchBase destDir fs
              = (Return (written, Some (SaveFileError destPath lerr)), fsFile)
           \<and> (\<forall>p \<in> set written. files fsFile p \<noteq> None)"
    if "File targetTree fileName = Inr fileInTree" "Contents fileInTree = Inr content"
      "MkdirAll os (Dir os destPath) fs1 = (None, fsDir)"
      "WriteFile os destPath content fsDir = (Some lerr, fsFile)"
  proof -
    have "\<forall>p \<in> set written. files fsDir p \<noteq> None"
      using present MkdirAll_files [OF that(3)] by simp
    then have "\<forall>p \<in> set written. files fsFile p \<noteq> None"
      using WriteFile_keeps [OF that(4)] by blast
    then show ?thesis
      using that assms(6,7)
        run [OF DownloadModifiedFiles_loop_write_fails [OF assms(5), of targetTree fileInTree content os destDir fs1 fsDir lerr fsFile after written]]
      by simp
  qed
  from 1 2 3 4 present show ?thesis by blast
qed

text \<open>
  Three modified files, the second of which cannot be written: the first stays written,
  the second is left as the failing write left it, the third is never reached, and the
  file that was in the destination before is gone.
\<close>

theorem DownloadModifiedFiles_partial_witness:
  "fst (DownloadModifiedFiles scenarioOS scenarioThreeModified ''feature'' ''main'' ''out''
          scenarioFS)
     = Return ([''out/a.txt''], Some (SaveFileError ''out/b.txt'' ''no space left on device''))
   \<and> map (files (snd (DownloadModifiedFiles scenarioOS scenarioThreeModified ''feature'' ''main''
                        ''out'' scenarioFS)))
        [''out/a.txt'', ''out/b.txt'', ''out/c.txt'', ''out/stale.txt'']
     = [Some ''A2'', Some [], None, None]"
proof -
  let ?target = "[(''a.txt'', ''A2''), (''b.txt'', ''B2''), (''c.txt'', ''C2'')]"
  let ?base = "[(''a.txt'', ''A1''), (''b.txt'', ''B1''), (''c.txt'', ''C1'')]"
  let ?r = "scenarioRepository ?target ?base
              [modified ''a.txt'', modified ''b.txt'', modified ''c.txt'']"
  let ?tt = "scenarioTree ?target"
  let ?fs0 = "RemoveAll scenarioOS ''out'' scenarioFS"
  let ?fs1 = "the (materialize scenarioOS ?tt ''out'' [modified ''a.txt''] ?fs0)"
  let ?fs2 = "snd (MkdirAll scenarioOS (Dir scenarioOS (Join scenarioOS ''out'' ''b.txt'')) ?fs1)"
  let ?fs3 = "snd (WriteFile scenarioOS (Join scenarioOS ''out'' ''b.txt'') ''B2'' ?fs2)"
  have h1: "repository scenarioThreeModified = Some ?r"
    by (simp add: scenarioThreeModified_def)
  have h2: "resolveTrees ?r ''feature'' ''main''
              = Inr (?tt, scenarioTree ?base,
                     [modified ''a.txt''] @ modified ''b.txt'' # [modified ''c.txt''])"
    using resolveTrees_scenario [of ?target ?base] by simp
  have h3: "materialize scenarioOS ?tt ''out'' [modified ''a.txt''] ?fs0 = Some ?fs1"
    by (simp add: scenarioOS_def scenarioTree_def modified_def MkdirAll_def WriteFile_def)
  have h4: "[''out/a.txt''] = map (\<lambda>c. Join scenarioOS ''out'' (Name (To c)))
              (filter (\<lambda>c. ChangeAction c = Inr Insert \<or> ChangeAction c = Inr Modify)
                 [modified ''a.txt''])"
    by (simp add: scenarioOS_def modified_def)
  have h5: "ChangeAction (modified ''b.txt'') = Inr Insert
            \<or> ChangeAction (modified ''b.txt'') = Inr Modify"
    by (simp add: modified_def)
  have h6: "''b.txt'' = Name (To (modified ''b.txt''))" by (simp add: modified_def)
  have h7: "''out/b.txt'' = Join scenarioOS ''out'' ''b.txt''" by (simp add: scenarioOS_def)
  have p1: "File ?tt ''b.txt'' = Inr \<lparr>Contents = Inr ''B2''\<rparr>
            \<and> Contents \<lparr>Contents = Inr ''B2''\<rparr> = Inr ''B2''"
    by (simp add: scenarioTree_def)
  have p2: "MkdirAll scenarioOS (Dir scenarioOS ''out/b.txt'') ?fs1 = (None, ?fs2)"
    by (simp add: scenarioOS_def MkdirAll_def)
  have p3: "WriteFile scenarioOS ''out/b.txt'' ''B2'' ?fs2
              = (Some ''no space left on device'', ?fs3)"
    by (simp add: scenarioOS_def WriteFile_def)
  note t = DownloadModifiedFiles_partial [OF h1 h2 h3 h4 h5 h6 h7,
      where fileInTree = "\<lparr>Contents = Inr ''B2''\<rparr>" and lerr = "''no space left on device''"
        and content = "''B2''" and fsDir = ?fs2 and fsFile = ?fs3]
  from t p1 p2 p3
  have d: "DownloadModifiedFiles scenarioOS scenarioThreeModified ''feature'' ''main'' ''out''
             scenarioFS
           = (Return ([''out/a.txt''],
                Some (SaveFileError ''out/b.txt'' ''no space left on device'')), ?fs3)"
    by blast
  have f: "map (files ?fs3) [''out/a.txt'', ''out/b.txt'', ''out/c.txt'', ''out/stale.txt'']
             = [Some ''A2'', Some [], None, None]"
    by (simp add: scenarioOS_def scenarioTree_def modified_def MkdirAll_def WriteFile_def
          RemoveAll_def scenarioFS_def)
  show ?thesis by (simp only: d fst_conv snd_conv f) 
qed

end
